theory Spec2Isabelle
  imports Main "HOL-Library.Char_ord" "HOL-Library.List_Lexorder" "HOL-Library.Multiset"
begin

section \<open>Media data objects (media.py)\<close>

text \<open>
  The four concrete classes of media.py. \<open>isinstance(x, Video)\<close> and the comparison of
  \<open>__class__\<close> values are tests on this tag; \<open>GenericRemoteContainer\<close> is the common base
  of \<open>Channel\<close> and \<open>Playlist\<close>, \<open>GenericContainer\<close> of those two and \<open>Folder\<close>.
\<close>

datatype media_class = Video | Channel | Playlist | Folder

text \<open>
  Python objects are shared and compared by identity (no class of media.py defines
  \<open>__eq__\<close>), so an object is an address into a store, and \<open>parent_obj\<close> and the entries
  of \<open>child_list\<close> are addresses. One record carries the instance variables of all four
  classes that the functions below read or write; a variable a class does not have keeps
  the neutral value the constructors give it. Instance variables that no function modelled
  here touches (options_obj, the file and description variables, the error and warning
  lists, and the restrict, temp, hidden, archive, dl_sim and dl_disable flags) are left out.
\<close>

type_synonym ref = nat

record media =
  cls :: media_class
  parent_obj :: "ref option"
  child_list :: "ref list"
  dbid :: int
  name :: string
  nickname :: string
  source :: "string option"
  master_dbid :: int
  slave_dbid_list :: "int list"
  fixed_flag :: bool
  priv_flag :: bool
  bookmark_flag :: bool
  dl_flag :: bool
  fav_flag :: bool
  new_flag :: bool
  waiting_flag :: bool
  vid_count :: int
  bookmark_count :: int
  dl_count :: int
  fav_count :: int
  new_count :: int
  waiting_count :: int
  upload_time :: "int option"
  receive_time :: "int option"
  index :: "int option"

text \<open>
  The store: the objects by address, and the next address the allocator hands out
  (a newly constructed object is distinct from every object that exists).
\<close>

record heap =
  objs :: "ref \<Rightarrow> media"
  next_ref :: ref

definition upd :: "heap \<Rightarrow> ref \<Rightarrow> (media \<Rightarrow> media) \<Rightarrow> heap" where
  "upd h r f = h\<lparr>objs := (objs h)(r := f (objs h r))\<rparr>"

definition alloc :: "heap \<Rightarrow> media \<Rightarrow> ref \<times> heap" where
  "alloc h m = (next_ref h, h\<lparr>objs := (objs h)(next_ref h := m), next_ref := Suc (next_ref h)\<rparr>)"

text \<open>The exceptions the modelled code can raise.\<close>

datatype error = TypeError | KeyError | AttributeError

definition is_remote :: "media \<Rightarrow> bool" where
  "is_remote m = (cls m = Channel \<or> cls m = Playlist)"

definition get_type :: "media \<Rightarrow> string" where
  "get_type self =
     (if cls self = Channel then ''channel''
      else if cls self = Playlist then ''playlist''
      else if cls self = Folder then ''folder''
      else ''video'')"

subsection \<open>Name and nickname\<close>

definition GenericContainer_set_name :: "media \<Rightarrow> string \<Rightarrow> media" where
  "GenericContainer_set_name self nm =
     (let self1 = (if nickname self = name self then self\<lparr>nickname := nm\<rparr> else self)
      in self1\<lparr>name := nm\<rparr>)"

definition Video_set_name :: "media \<Rightarrow> string \<Rightarrow> media" where
  "Video_set_name self nm = self\<lparr>name := nm\<rparr>"

text \<open>Method resolution: \<open>Video\<close> overrides nothing of \<open>GenericContainer\<close>; it defines its own.\<close>

definition set_name :: "media \<Rightarrow> string \<Rightarrow> media" where
  "set_name self nm =
     (case cls self of
        Video \<Rightarrow> Video_set_name self nm
      | _ \<Rightarrow> GenericContainer_set_name self nm)"

text \<open>
  The instance variables the constructors set, before the new object is registered with
  its parent.
\<close>

definition blank :: "media_class \<Rightarrow> int \<Rightarrow> string \<Rightarrow> ref option \<Rightarrow> media" where
  "blank c d nm p =
     \<lparr> cls = c, parent_obj = p, child_list = [], dbid = d, name = nm, nickname = nm,
       source = None, master_dbid = d, slave_dbid_list = [],
       fixed_flag = False, priv_flag = False,
       bookmark_flag = False, dl_flag = False, fav_flag = False, new_flag = False,
       waiting_flag = False,
       vid_count = 0, bookmark_count = 0, dl_count = 0, fav_count = 0, new_count = 0,
       waiting_count = 0,
       upload_time = None, receive_time = None, index = None \<rparr>"

subsection \<open>Ordering\<close>

text \<open>
  \<open>GenericRemoteContainer.do_sort\<close>. The result is Python's return value: \<open>None\<close> is the
  value of a call that runs off the end of the function.
\<close>

definition GenericRemoteContainer_do_sort :: "media \<Rightarrow> media \<Rightarrow> media \<Rightarrow> int option" where
  "GenericRemoteContainer_do_sort self obj1 obj2 =
     (if cls self = Playlist \<and> index obj1 \<noteq> None \<and> index obj2 \<noteq> None then
        (if the (index obj1) < the (index obj2) then Some (- 1) else Some 1)
      else if upload_time obj1 \<noteq> None \<and> upload_time obj2 \<noteq> None then
        (if the (upload_time obj1) > the (upload_time obj2) then Some (- 1)
         else if the (upload_time obj1) < the (upload_time obj2) then Some 1
         else if receive_time obj1 \<noteq> None \<and> receive_time obj2 \<noteq> None then
           (if the (receive_time obj1) < the (receive_time obj2) then Some (- 1)
            else if the (receive_time obj1) > the (receive_time obj2) then Some 1
            else Some 0)
         else None)
      else Some 0)"

text \<open>\<open>str.lower\<close> on the code points 0 to 255.\<close>

definition char_lower :: "char \<Rightarrow> char" where
  "char_lower c =
     (let n = (of_char c :: nat)
      in if (65 \<le> n \<and> n \<le> 90) \<or> (192 \<le> n \<and> n \<le> 222 \<and> n \<noteq> 215)
         then char_of (n + 32) else c)"

definition lower :: "string \<Rightarrow> string" where
  "lower s = map char_lower s"

definition Folder_do_sort :: "media \<Rightarrow> media \<Rightarrow> media \<Rightarrow> int option" where
  "Folder_do_sort self obj1 obj2 =
     (if cls obj1 = cls obj2 \<or> (is_remote obj1 \<and> is_remote obj2) then
        (if cls obj1 = Video then
           (if upload_time obj1 \<noteq> None \<and> upload_time obj2 \<noteq> None then
              (if the (upload_time obj1) > the (upload_time obj2) then Some (- 1)
               else if the (upload_time obj1) < the (upload_time obj2) then Some 1
               else if receive_time obj1 \<noteq> None \<and> receive_time obj2 \<noteq> None then
                 (if priv_flag self then
                    (if the (receive_time obj1) > the (receive_time obj2) then Some (- 1)
                     else if the (receive_time obj1) < the (receive_time obj2) then Some 1
                     else Some 0)
                  else
                    (if the (receive_time obj1) < the (receive_time obj2) then Some (- 1)
                     else if the (receive_time obj1) > the (receive_time obj2) then Some 1
                     else Some 0))
               else Some 0)
            else Some 0)
         else
           (if lower (name obj1) < lower (name obj2) then Some (- 1)
            else if lower (name obj1) > lower (name obj2) then Some 1
            else Some 0))
      else
        (if cls obj1 = Folder then Some (- 1)
         else if cls obj2 = Folder then Some 1
         else if cls obj1 = Channel \<or> cls obj1 = Playlist then Some (- 1)
         else if cls obj2 = Channel \<or> cls obj2 = Playlist then Some 1
         else Some 0))"

text \<open>
  \<open>functools.cmp_to_key(mycmp)\<close> wraps each element in a key whose \<open><\<close> is
  \<open>mycmp(a, b) < 0\<close>; comparing \<open>None\<close> with \<open>0\<close> raises TypeError.
\<close>

definition cmp_to_key_lt :: "('a \<Rightarrow> 'a \<Rightarrow> int option) \<Rightarrow> 'a \<Rightarrow> 'a \<Rightarrow> error + bool" where
  "cmp_to_key_lt mycmp a b = (case mycmp a b of None \<Rightarrow> Inl TypeError | Some r \<Rightarrow> Inr (r < 0))"

text \<open>
  \<open>list.sort(key=...)\<close> is the interpreter's stable sort; it consults the keys through
  \<open><\<close> only and an exception raised by a comparison ends it. It is taken here as the
  stable insertion sort: each element in turn is placed in the sorted prefix before the
  first element it is smaller than. On a list of two elements this is the single
  comparison of the second with the first that the interpreter makes.
\<close>

fun sort_insert :: "('a \<Rightarrow> 'a \<Rightarrow> error + bool) \<Rightarrow> 'a \<Rightarrow> 'a list \<Rightarrow> error + 'a list" where
  "sort_insert lt x [] = Inr [x]"
| "sort_insert lt x (y # ys) =
     (case lt x y of
        Inl e \<Rightarrow> Inl e
      | Inr True \<Rightarrow> Inr (x # y # ys)
      | Inr False \<Rightarrow>
          (case sort_insert lt x ys of Inl e \<Rightarrow> Inl e | Inr zs \<Rightarrow> Inr (y # zs)))"

fun sort_from :: "('a \<Rightarrow> 'a \<Rightarrow> error + bool) \<Rightarrow> 'a list \<Rightarrow> 'a list \<Rightarrow> error + 'a list" where
  "sort_from lt pre [] = Inr pre"
| "sort_from lt pre (x # xs) =
     (case sort_insert lt x pre of Inl e \<Rightarrow> Inl e | Inr pre1 \<Rightarrow> sort_from lt pre1 xs)"

definition list_sort :: "('a \<Rightarrow> 'a \<Rightarrow> int option) \<Rightarrow> 'a list \<Rightarrow> error + 'a list" where
  "list_sort mycmp xs = sort_from (cmp_to_key_lt mycmp) [] xs"


lemma sort_insert_length:
  "sort_insert lt x ys = Inr zs \<Longrightarrow> length zs = Suc (length ys)"
  by (induction ys arbitrary: zs) (auto split: sum.splits bool.splits)

lemma sort_from_length:
  "sort_from lt pre xs = Inr zs \<Longrightarrow> length zs = length pre + length xs"
proof (induction xs arbitrary: pre)
  case Nil
  then show ?case by simp
next
  case (Cons x xs)
  then show ?case
    by (auto split: sum.splits dest!: sort_insert_length)
qed

lemma list_sort_length: "list_sort mycmp xs = Inr zs \<Longrightarrow> length zs = length xs"
  by (simp add: list_sort_def sort_from_length)

text \<open>
  \<open>sort_children\<close>, once per class as in the source. The loop sorts a copy and starts
  again when the copy's length differs from the child list's; a sort keeps the length, so
  the loop body runs once, which is its termination proof. \<open>GenericRemoteContainer\<close>
  then sorts the child list itself a second time.
\<close>

function GenericRemoteContainer_sort_children_loop :: "heap \<Rightarrow> ref \<Rightarrow> error + heap" where
  "GenericRemoteContainer_sort_children_loop h self =
     (case list_sort
             (\<lambda>a b. GenericRemoteContainer_do_sort (objs h self) (objs h a) (objs h b))
             (child_list (objs h self)) of
        Inl e \<Rightarrow> Inl e
      | Inr copy_list \<Rightarrow>
          if length copy_list = length (child_list (objs h self))
          then Inr (upd h self (\<lambda>m. m\<lparr>child_list := copy_list\<rparr>))
          else GenericRemoteContainer_sort_children_loop h self)"
  by pat_completeness auto
termination
  by (relation "{}") (auto dest: list_sort_length)

declare GenericRemoteContainer_sort_children_loop.simps [simp del]

definition GenericRemoteContainer_sort_children :: "heap \<Rightarrow> ref \<Rightarrow> error + heap" where
  "GenericRemoteContainer_sort_children h self =
     (case GenericRemoteContainer_sort_children_loop h self of
        Inl e \<Rightarrow> Inl e
      | Inr h1 \<Rightarrow>
          (case list_sort
                  (\<lambda>a b. GenericRemoteContainer_do_sort (objs h1 self) (objs h1 a) (objs h1 b))
                  (child_list (objs h1 self)) of
             Inl e \<Rightarrow> Inl e
           | Inr sorted_list \<Rightarrow> Inr (upd h1 self (\<lambda>m. m\<lparr>child_list := sorted_list\<rparr>))))"

function Folder_sort_children :: "heap \<Rightarrow> ref \<Rightarrow> error + heap" where
  "Folder_sort_children h self =
     (case list_sort
             (\<lambda>a b. Folder_do_sort (objs h self) (objs h a) (objs h b))
             (child_list (objs h self)) of
        Inl e \<Rightarrow> Inl e
      | Inr copy_list \<Rightarrow>
          if length copy_list = length (child_list (objs h self))
          then Inr (upd h self (\<lambda>m. m\<lparr>child_list := copy_list\<rparr>))
          else Folder_sort_children h self)"
  by pat_completeness auto
termination
  by (relation "{}") (auto dest: list_sort_length)

declare Folder_sort_children.simps [simp del]

subsection \<open>Adding and removing children\<close>

definition GenericRemoteContainer_add_child :: "heap \<Rightarrow> ref \<Rightarrow> ref \<Rightarrow> bool \<Rightarrow> error + heap" where
  "GenericRemoteContainer_add_child h self child_obj no_sort_flag =
     (if cls (objs h child_obj) = Video \<or> child_obj \<in> set (child_list (objs h self)) then
        (let h1 = upd h self (\<lambda>m. m\<lparr>child_list := child_list m @ [child_obj]\<rparr>)
         in case (if \<not> no_sort_flag then GenericRemoteContainer_sort_children h1 self
                  else Inr h1) of
              Inl e \<Rightarrow> Inl e
            | Inr h2 \<Rightarrow>
                Inr (if cls (objs h2 child_obj) = Video
                     then upd h2 self (\<lambda>m. m\<lparr>vid_count := vid_count m + 1\<rparr>)
                     else h2))
      else Inr h)"

definition Folder_add_child :: "heap \<Rightarrow> ref \<Rightarrow> ref \<Rightarrow> bool \<Rightarrow> error + heap" where
  "Folder_add_child h self child_obj no_sort_flag =
     (if child_obj \<notin> set (child_list (objs h self)) then
        (let h1 = upd h self (\<lambda>m. m\<lparr>child_list := child_list m @ [child_obj]\<rparr>)
         in case (if \<not> no_sort_flag then Folder_sort_children h1 self else Inr h1) of
              Inl e \<Rightarrow> Inl e
            | Inr h2 \<Rightarrow>
                Inr (if cls (objs h2 child_obj) = Video
                     then upd h2 self (\<lambda>m. m\<lparr>vid_count := vid_count m + 1\<rparr>)
                     else h2))
      else Inr h)"

text \<open>\<open>x.add_child(...)\<close>: the method of the receiver's class; \<open>Video\<close> has none.\<close>

definition add_child :: "heap \<Rightarrow> ref \<Rightarrow> ref \<Rightarrow> bool \<Rightarrow> error + heap" where
  "add_child h self child_obj no_sort_flag =
     (case cls (objs h self) of
        Video \<Rightarrow> Inl AttributeError
      | Folder \<Rightarrow> Folder_add_child h self child_obj no_sort_flag
      | _ \<Rightarrow> GenericRemoteContainer_add_child h self child_obj no_sort_flag)"


subsection \<open>Constructors\<close>

text \<open>
  Each constructor allocates the object, sets its instance variables and registers it
  with its parent. \<open>Video.__init__\<close> calls \<open>self.parent_obj.add_child\<close> unconditionally
  (\<open>None\<close> has no such method); the containers' constructors only when the parent is given.
  The result is the new object and the new store.
\<close>

definition Video_init ::
  "heap \<Rightarrow> int \<Rightarrow> string \<Rightarrow> ref option \<Rightarrow> bool \<Rightarrow> error + (ref \<times> heap)" where
  "Video_init h d nm parent no_sort_flag =
     (let (self, h1) = alloc h (blank Video d nm parent)
      in case parent of
           None \<Rightarrow> Inl AttributeError
         | Some p \<Rightarrow>
             (case add_child h1 p self no_sort_flag of
                Inl e \<Rightarrow> Inl e
              | Inr h2 \<Rightarrow> Inr (self, h2)))"

definition container_init :: "heap \<Rightarrow> media \<Rightarrow> error + (ref \<times> heap)" where
  "container_init h m =
     (let (self, h1) = alloc h m
      in case parent_obj m of
           None \<Rightarrow> Inr (self, h1)
         | Some p \<Rightarrow>
             (case add_child h1 p self False of
                Inl e \<Rightarrow> Inl e
              | Inr h2 \<Rightarrow> Inr (self, h2)))"

definition Channel_init :: "heap \<Rightarrow> int \<Rightarrow> string \<Rightarrow> ref option \<Rightarrow> error + (ref \<times> heap)" where
  "Channel_init h d nm parent = container_init h (blank Channel d nm parent)"



subsection \<open>The aggregate counters\<close>






text \<open>
  \<open>Video.set_upload_time\<close> (called with a number), on the object.
\<close>

definition set_upload_time :: "media \<Rightarrow> int \<Rightarrow> media" where
  "set_upload_time self unix_time = self\<lparr>upload_time := Some unix_time\<rparr>"


subsection \<open>The main application object and the file system paths\<close>

text \<open>
  Of \<open>mainapp.TartubeApp\<close> the functions here read the registry (dbid to object), the
  downloads directory and the three name-matching settings. \<open>os.path.join\<close> and
  \<open>os.path.abspath\<close> belong to the platform; they are parameters.
\<close>

record app_obj =
  media_reg_dict :: "int \<rightharpoonup> ref"
  downloads_dir :: string
  match_method :: string
  match_first_chars :: int
  match_ignore_chars :: int

record os_path =
  path_join :: "string \<Rightarrow> string list \<Rightarrow> string"
  path_abspath :: "string \<Rightarrow> string"

text \<open>
  An instance to evaluate with: the POSIX \<open>join\<close>, and \<open>abspath\<close> as it acts on a path that
  is absolute and normalised already.
\<close>

fun posix_join :: "string \<Rightarrow> string list \<Rightarrow> string" where
  "posix_join a [] = a"
| "posix_join a (b # p) =
     posix_join (if b \<noteq> [] \<and> hd b = CHR ''/'' then b
                 else if a = [] \<or> last a = CHR ''/'' then a @ b
                 else a @ ''/'' @ b) p"

definition posix :: os_path where
  "posix = \<lparr>path_join = posix_join, path_abspath = (\<lambda>p. p)\<rparr>"

text \<open>
  The loop \<open>while obj.parent_obj: obj = obj.parent_obj; dir_list.insert(0, obj.name)\<close>
  of \<open>get_default_dir\<close> and \<open>get_relative_default_dir\<close>. Nothing bounds the chain of
  parents, so the loop is a partial function: \<open>None\<close> is a loop that never ends.
\<close>

partial_function (option) parent_names :: "heap \<Rightarrow> ref \<Rightarrow> string list \<Rightarrow> string list option" where
  "parent_names h obj dir_list =
     (case parent_obj (objs h obj) of
        None \<Rightarrow> Some dir_list
      | Some p \<Rightarrow> parent_names h p (name (objs h p) # dir_list))"

definition get_default_dir ::
  "os_path \<Rightarrow> heap \<Rightarrow> app_obj \<Rightarrow> ref \<Rightarrow> string option \<Rightarrow> string option" where
  "get_default_dir os h app self new_name =
     (case parent_names h self
             [case new_name of Some n \<Rightarrow> n | None \<Rightarrow> name (objs h self)] of
        None \<Rightarrow> None
      | Some dir_list \<Rightarrow>
          Some (path_abspath os (path_join os (downloads_dir app) dir_list)))"

text \<open>
  \<open>get_actual_dir\<close>: the registry lookup raises KeyError on a dbid that is not a key, and
  a \<open>Video\<close> has no method \<open>get_default_dir\<close>. The outer \<open>option\<close> is the loop's.
\<close>

definition get_actual_dir ::
  "os_path \<Rightarrow> heap \<Rightarrow> app_obj \<Rightarrow> ref \<Rightarrow> string option \<Rightarrow> (error + string) option" where
  "get_actual_dir os h app self new_name =
     (if master_dbid (objs h self) \<noteq> dbid (objs h self) then
        (case media_reg_dict app (master_dbid (objs h self)) of
           None \<Rightarrow> Some (Inl KeyError)
         | Some master_obj \<Rightarrow>
             if cls (objs h master_obj) = Video then Some (Inl AttributeError)
             else map_option Inr (get_default_dir os h app master_obj new_name))
      else map_option Inr (get_default_dir os h app self new_name))"

text \<open>
  \<open>get_relative_default_dir(self, new_name=None)\<close>. \<open>os.path.join(*dir_list)\<close> needs one
  argument at least.
\<close>

definition get_relative_default_dir ::
  "os_path \<Rightarrow> heap \<Rightarrow> ref \<Rightarrow> string option \<Rightarrow> (error + string) option" where
  "get_relative_default_dir os h self new_name =
     (case parent_names h self
             [case new_name of Some n \<Rightarrow> n | None \<Rightarrow> name (objs h self)] of
        None \<Rightarrow> None
      | Some [] \<Rightarrow> Some (Inl TypeError)
      | Some (d # ds) \<Rightarrow> Some (Inr (path_join os d ds)))"

text \<open>
  A call \<open>x.get_relative_default_dir(a1, ..., an)\<close> with positional arguments: the method
  is looked up on the receiver (\<open>Video\<close> has none), then the arguments are bound. The
  function takes \<open>new_name\<close> only, so two or more arguments raise TypeError before the
  body runs. An application object bound to \<open>new_name\<close> goes into \<open>dir_list\<close>, and
  \<open>os.path.join\<close> raises TypeError on it once the loop has ended.
\<close>

datatype arg = AppObj app_obj | NewName "string option"

definition call_get_relative_default_dir ::
  "os_path \<Rightarrow> heap \<Rightarrow> ref \<Rightarrow> arg list \<Rightarrow> (error + string) option" where
  "call_get_relative_default_dir os h x args =
     (if cls (objs h x) = Video then Some (Inl AttributeError)
      else case args of
             [] \<Rightarrow> get_relative_default_dir os h x None
           | [NewName n] \<Rightarrow> get_relative_default_dir os h x n
           | [AppObj a] \<Rightarrow>
               (case parent_names h x [] of None \<Rightarrow> None | Some ds \<Rightarrow> Some (Inl TypeError))
           | _ \<Rightarrow> Some (Inl TypeError))"

definition get_relative_actual_dir ::
  "os_path \<Rightarrow> heap \<Rightarrow> app_obj \<Rightarrow> ref \<Rightarrow> string option \<Rightarrow> (error + string) option" where
  "get_relative_actual_dir os h app self new_name =
     (if master_dbid (objs h self) \<noteq> dbid (objs h self) then
        (case media_reg_dict app (master_dbid (objs h self)) of
           None \<Rightarrow> Some (Inl KeyError)
         | Some master_obj \<Rightarrow>
             call_get_relative_default_dir os h master_obj [AppObj app, NewName new_name])
      else call_get_relative_default_dir os h self [AppObj app, NewName new_name])"

subsection \<open>Alternative download destinations\<close>

definition add_slave_dbid :: "media \<Rightarrow> int \<Rightarrow> media" where
  "add_slave_dbid self d =
     (if d \<in> set (slave_dbid_list self) then self
      else self\<lparr>slave_dbid_list := slave_dbid_list self @ [d]\<rparr>)"

definition del_slave_dbid :: "media \<Rightarrow> int \<Rightarrow> media" where
  "del_slave_dbid self d =
     self\<lparr>slave_dbid_list := filter (\<lambda>slave_dbid. slave_dbid \<noteq> d) (slave_dbid_list self)\<rparr>"

text \<open>
  \<open>set_master_dbid\<close>. The lookup of the old destination is guarded by \<open>in\<close>; the lookup
  of the new one is \<open>app_obj.media_reg_dict[self.master_dbid]\<close>, which raises KeyError.
  The slave-list methods are \<open>GenericContainer\<close>'s: a \<open>Video\<close> in the registry has none.
\<close>

definition set_master_dbid :: "heap \<Rightarrow> app_obj \<Rightarrow> ref \<Rightarrow> int \<Rightarrow> error + heap" where
  "set_master_dbid h app self d =
     (if d = master_dbid (objs h self) then Inr h
      else
        (case (if master_dbid (objs h self) \<noteq> dbid (objs h self) then
                 (case media_reg_dict app (master_dbid (objs h self)) of
                    None \<Rightarrow> Inr h
                  | Some old_dest_obj \<Rightarrow>
                      if cls (objs h old_dest_obj) = Video then Inl AttributeError
                      else Inr (upd h old_dest_obj
                                  (\<lambda>m. del_slave_dbid m (dbid (objs h self)))))
               else Inr h) of
           Inl e \<Rightarrow> Inl e
         | Inr h1 \<Rightarrow>
             (let h2 = upd h1 self (\<lambda>m. m\<lparr>master_dbid := d\<rparr>)
              in if master_dbid (objs h2 self) \<noteq> dbid (objs h2 self) then
                   (case media_reg_dict app (master_dbid (objs h2 self)) of
                      None \<Rightarrow> Inl KeyError
                    | Some new_dest_obj \<Rightarrow>
                        if cls (objs h2 new_dest_obj) = Video then Inl AttributeError
                        else Inr (upd h2 new_dest_obj
                                    (\<lambda>m. add_slave_dbid m (dbid (objs h2 self)))))
                 else Inr h2)))"

subsection \<open>Matching a video by name\<close>








subsection \<open>Flat export\<close>

text \<open>
  The dictionary written for one exported object, with the keys \<open>type\<close>, \<open>dbid\<close>,
  \<open>name\<close>, \<open>nickname\<close>, \<open>source\<close> and \<open>db_dict\<close>; \<open>db_dict\<close> maps the dbid of a child
  to the child's dictionary.
\<close>

datatype export_doc =
  Doc (doc_type: string) (doc_dbid: int) (doc_name: string) (doc_nickname: "string option")
      (doc_source: "string option") (doc_db_dict: "int \<Rightarrow> export_doc option")

text \<open>
  The export functions only walk down: they read an object's own variables and call
  themselves on the objects of \<open>child_list\<close>, in order. They are defined on the tree below
  the object they are called on: a node is the object's record and the trees of its
  children (the addresses in the record play no part).
\<close>

datatype media_tree = Tree (obj: media) (children: "media_tree list")

text \<open>
  \<open>prepare_flat_export\<close>, with its two loops over the child list: the one of a channel
  or playlist, which fills \<open>child_dict\<close> with the videos and passes any other child on,
  and the one of a folder, which skips the videos.
\<close>

fun prepare_flat_export ::
  "media_tree \<Rightarrow> (int \<rightharpoonup> export_doc) \<Rightarrow> bool \<Rightarrow> bool \<Rightarrow> bool \<Rightarrow> (int \<rightharpoonup> export_doc)"
and flat_remote_children ::
  "media_tree list \<Rightarrow> (int \<rightharpoonup> export_doc) \<Rightarrow> (int \<rightharpoonup> export_doc) \<Rightarrow> bool \<Rightarrow> bool \<Rightarrow> bool \<Rightarrow>
     (int \<rightharpoonup> export_doc) \<times> (int \<rightharpoonup> export_doc)"
and flat_folder_children ::
  "media_tree list \<Rightarrow> (int \<rightharpoonup> export_doc) \<Rightarrow> bool \<Rightarrow> bool \<Rightarrow> bool \<Rightarrow> (int \<rightharpoonup> export_doc)"
where
  "prepare_flat_export (Tree self kids) db_dict
     include_video_flag include_channel_flag include_playlist_flag =
     (if cls self = Video then db_dict
      else if cls self = Channel \<and> \<not> include_channel_flag then db_dict
      else if cls self = Playlist \<and> \<not> include_playlist_flag then db_dict
      else if cls self = Folder \<and> fixed_flag self then db_dict
      else if cls self = Channel \<or> cls self = Playlist then
        (case flat_remote_children kids Map.empty db_dict
                include_video_flag include_channel_flag include_playlist_flag of
           (child_dict, db_dict1) \<Rightarrow>
             db_dict1(dbid self \<mapsto>
               Doc (if cls self = Channel then ''channel'' else ''playlist'') (dbid self)
                   (name self) (Some (nickname self)) (source self) child_dict))
      else flat_folder_children kids db_dict
             include_video_flag include_channel_flag include_playlist_flag)"
| "flat_remote_children [] child_dict db_dict
     include_video_flag include_channel_flag include_playlist_flag = (child_dict, db_dict)"
| "flat_remote_children (child_obj # rest) child_dict db_dict
     include_video_flag include_channel_flag include_playlist_flag =
     (if cls (obj child_obj) = Video then
        (if include_video_flag \<and> source (obj child_obj) \<noteq> None then
           flat_remote_children rest
             (child_dict(dbid (obj child_obj) \<mapsto>
                Doc ''video'' (dbid (obj child_obj)) (name (obj child_obj)) None
                    (source (obj child_obj)) Map.empty))
             db_dict include_video_flag include_channel_flag include_playlist_flag
         else flat_remote_children rest child_dict db_dict
                include_video_flag include_channel_flag include_playlist_flag)
      else flat_remote_children rest child_dict
             (prepare_flat_export child_obj db_dict
                include_video_flag include_channel_flag include_playlist_flag)
             include_video_flag include_channel_flag include_playlist_flag)"
| "flat_folder_children [] db_dict
     include_video_flag include_channel_flag include_playlist_flag = db_dict"
| "flat_folder_children (child_obj # rest) db_dict
     include_video_flag include_channel_flag include_playlist_flag =
     (if cls (obj child_obj) \<noteq> Video then
        flat_folder_children rest
          (prepare_flat_export child_obj db_dict
             include_video_flag include_channel_flag include_playlist_flag)
          include_video_flag include_channel_flag include_playlist_flag
      else flat_folder_children rest db_dict
             include_video_flag include_channel_flag include_playlist_flag)"

text \<open>
  The descendants of a folder that the flat export reaches: the children of a folder that
  is not fixed, and below each child that is such a folder, its descendants in turn.
\<close>

fun flat_descendants :: "media_tree \<Rightarrow> media_tree list" where
  "flat_descendants (Tree self kids) =
     (if cls self = Folder \<and> \<not> fixed_flag self
      then concat (map (\<lambda>c. c # flat_descendants c) kids)
      else [])"

text \<open>
  The dbids of the containers of a tree, and the dictionary that \<open>prepare_flat_export\<close>
  writes for a channel or playlist: its own variables and the dictionaries of its videos.
\<close>

fun container_ids :: "media_tree \<Rightarrow> int list" where
  "container_ids (Tree self kids) =
     (if cls self = Video then [] else dbid self # concat (map container_ids kids))"

definition remote_doc :: "bool \<Rightarrow> bool \<Rightarrow> bool \<Rightarrow> media_tree \<Rightarrow> export_doc" where
  "remote_doc iv ic ip c =
     Doc (get_type (obj c)) (dbid (obj c)) (name (obj c)) (Some (nickname (obj c)))
         (source (obj c))
         (fst (flat_remote_children (children c) Map.empty Map.empty iv ic ip))"

text \<open>
  A folder that is not fixed holding a video with a known source; and a folder holding a
  video, a folder S with a channel C (dbid 5) of two videos, one with a source and one
  without, and a fixed folder with a playlist.
\<close>

definition folder_with_video :: media_tree where
  "folder_with_video =
     Tree (blank Folder 1 ''F'' None)
       [Tree ((blank Video 2 ''v'' None)\<lparr>source := Some ''http://v''\<rparr>) []]"

definition export_tree :: media_tree where
  "export_tree =
     Tree (blank Folder 1 ''R'' None)
       [Tree (blank Folder 3 ''S'' None)
          [Tree ((blank Channel 5 ''C'' None)\<lparr>source := Some ''http://c''\<rparr>)
             [Tree ((blank Video 6 ''a'' None)\<lparr>source := Some ''http://a''\<rparr>) [],
              Tree (blank Video 7 ''b'' None) []]],
        Tree ((blank Folder 4 ''X'' None)\<lparr>fixed_flag := True\<rparr>)
          [Tree (blank Playlist 8 ''P'' None) []],
        Tree ((blank Video 2 ''v'' None)\<lparr>source := Some ''http://v''\<rparr>) []]"


text \<open>
  A dictionary as the top-level collection holds it for the object with dbid \<open>k\<close> (a
  channel's or a playlist's, under its own dbid), and as a channel's or playlist's
  \<open>db_dict\<close> holds it for the video with dbid \<open>k\<close>.
\<close>

definition top_level_doc :: "int \<Rightarrow> export_doc \<Rightarrow> bool" where
  "top_level_doc k d = (doc_dbid d = k \<and> (doc_type d = ''channel'' \<or> doc_type d = ''playlist''))"

definition video_doc :: "int \<Rightarrow> export_doc \<Rightarrow> bool" where
  "video_doc k d = (doc_dbid d = k \<and> doc_type d = ''video'')"

text \<open>The store before anything is allocated.\<close>

definition heap0 :: heap where
  "heap0 = \<lparr>objs = (\<lambda>_. blank Video 0 [] None), next_ref = 0\<rparr>"


text \<open>
  A store with a chain of aliases: channel A (dbid 1) has playlist B (dbid 2) as its
  download destination, B has folder C (dbid 3), C has none; channel D (dbid 4) is a
  child of C; folder E (dbid 5) names the destination 99, which the registry of
  \<open>app0\<close> does not hold.
\<close>

definition alias_chain :: heap where
  "alias_chain =
     \<lparr>objs = (objs heap0)
        (0 := (blank Channel 1 ''A'' None)\<lparr>master_dbid := 2\<rparr>,
         1 := (blank Playlist 2 ''B'' None)\<lparr>master_dbid := 3, slave_dbid_list := [1]\<rparr>,
         2 := (blank Folder 3 ''C'' None)\<lparr>child_list := [3], slave_dbid_list := [2]\<rparr>,
         3 := blank Channel 4 ''D'' (Some 2),
         4 := (blank Folder 5 ''E'' None)\<lparr>master_dbid := 99\<rparr>),
      next_ref = 5\<rparr>"

definition app0 :: app_obj where
  "app0 =
     \<lparr>media_reg_dict = [1 \<mapsto> 0, 2 \<mapsto> 1, 3 \<mapsto> 2, 4 \<mapsto> 3, 5 \<mapsto> 4],
      downloads_dir = ''/dl'',
      match_method = ''exact_match'',
      match_first_chars = 10,
      match_ignore_chars = 5\<rparr>"


section \<open>Properties\<close>

subsection \<open>The sort\<close>

lemma sort_insert_mset:
  "sort_insert lt x ys = Inr zs \<Longrightarrow> mset zs = add_mset x (mset ys)"
  by (induction ys arbitrary: zs) (auto split: sum.splits bool.splits)

lemma sort_from_mset:
  "sort_from lt pre xs = Inr zs \<Longrightarrow> mset zs = mset pre + mset xs"
proof (induction xs arbitrary: pre)
  case Nil
  then show ?case by simp
next
  case (Cons x xs)
  then show ?case
    by (auto split: sum.splits dest!: sort_insert_mset)
qed

lemma list_sort_mset: "list_sort mycmp xs = Inr zs \<Longrightarrow> mset zs = mset xs"
  by (simp add: list_sort_def sort_from_mset)

lemma sort_insert_total:
  "\<forall>y\<in>set ys. \<exists>b. lt x y = Inr b \<Longrightarrow> \<exists>zs. sort_insert lt x ys = Inr zs"
  by (induction ys) (auto split: sum.splits bool.splits)

lemma sort_from_total:
  "\<forall>x\<in>set pre \<union> set xs. \<forall>y\<in>set pre \<union> set xs. \<exists>b. lt x y = Inr b \<Longrightarrow>
   \<exists>zs. sort_from lt pre xs = Inr zs"
proof (induction xs arbitrary: pre)
  case Nil
  then show ?case by simp
next
  case (Cons x xs)
  from Cons.prems have "\<forall>y\<in>set pre. \<exists>b. lt x y = Inr b" by auto
  then obtain pre1 where p1: "sort_insert lt x pre = Inr pre1"
    using sort_insert_total [of pre lt x] by auto
  then have "set pre1 = insert x (set pre)"
    by (metis sort_insert_mset set_mset_mset set_mset_add_mset_insert)
  with Cons.prems have "\<forall>a\<in>set pre1 \<union> set xs. \<forall>y\<in>set pre1 \<union> set xs. \<exists>b. lt a y = Inr b"
    by auto
  from Cons.IH [OF this] p1 show ?case by simp
qed

lemma list_sort_total:
  "\<forall>x\<in>set xs. \<forall>y\<in>set xs. mycmp x y \<noteq> None \<Longrightarrow> \<exists>zs. list_sort mycmp xs = Inr zs"
  unfolding list_sort_def
  by (rule sort_from_total) (auto simp: cmp_to_key_lt_def split: option.splits)

lemma Folder_do_sort_total: "Folder_do_sort s a b \<noteq> None"
  by (simp add: Folder_do_sort_def)


lemma Folder_sort_children_eq:
  "Folder_sort_children h self =
     (case list_sort (\<lambda>a b. Folder_do_sort (objs h self) (objs h a) (objs h b))
             (child_list (objs h self)) of
        Inl e \<Rightarrow> Inl e
      | Inr copy_list \<Rightarrow> Inr (upd h self (\<lambda>m. m\<lparr>child_list := copy_list\<rparr>)))"
  by (subst Folder_sort_children.simps) (simp split: sum.splits add: list_sort_length)

lemma GenericRemoteContainer_sort_children_loop_eq:
  "GenericRemoteContainer_sort_children_loop h self =
     (case list_sort (\<lambda>a b. GenericRemoteContainer_do_sort (objs h self) (objs h a) (objs h b))
             (child_list (objs h self)) of
        Inl e \<Rightarrow> Inl e
      | Inr copy_list \<Rightarrow> Inr (upd h self (\<lambda>m. m\<lparr>child_list := copy_list\<rparr>)))"
  by (subst GenericRemoteContainer_sort_children_loop.simps)
     (simp split: sum.splits add: list_sort_length)

subsection \<open>The store and the sorted child list\<close>

lemma objs_upd [simp]: "objs (upd h r f) = (objs h)(r := f (objs h r))"
  by (simp add: upd_def)

lemma next_ref_upd [simp]: "next_ref (upd h r f) = next_ref h"
  by (simp add: upd_def)



lemma Folder_sort_children_result:
  "\<exists>zs. Folder_sort_children h c = Inr (upd h c (\<lambda>m. m\<lparr>child_list := zs\<rparr>)) \<and>
        mset zs = mset (child_list (objs h c))"
proof -
  let ?cmp = "\<lambda>a b. Folder_do_sort (objs h c) (objs h a) (objs h b)"
  obtain zs where zs: "list_sort ?cmp (child_list (objs h c)) = Inr zs"
    using list_sort_total [of "child_list (objs h c)" ?cmp] Folder_do_sort_total by blast
  then show ?thesis
    by (auto simp: Folder_sort_children_eq dest: list_sort_mset)
qed


subsection \<open>Children and counters\<close>











lemma Folder_sort_children_frame:
  assumes "Folder_sort_children h c = Inr h'"
  shows "\<exists>zs. h' = upd h c (\<lambda>m. m\<lparr>child_list := zs\<rparr>) \<and> mset zs = mset (child_list (objs h c))"
  using assms Folder_sort_children_result [of h c] by auto







subsection \<open>Adding a child twice; the comparators\<close>

text \<open>
  C2 says that \<open>add_child\<close> of a channel or playlist leaves the child list and
  \<open>vid_count\<close> unchanged when the object is already a child. The source's comment asks
  for the same check (\<open>Also, check this is not already a child object\<close>) and
  \<open>Folder.add_child\<close> makes it, but the condition here is a disjunction: a channel
  whose only child is the video \<open>v\<close>, asked to add \<open>v\<close> again, ends with the child list
  \<open>[v, v]\<close> and \<open>vid_count\<close> 2.
\<close>

theorem add_child_existing_video_appended_again:
  "(case Channel_init heap0 1 ''c'' None of
      Inl e \<Rightarrow> False
    | Inr (c, h1) \<Rightarrow>
        (case Video_init h1 2 ''v'' (Some c) False of
           Inl e \<Rightarrow> False
         | Inr (v, h2) \<Rightarrow>
             child_list (objs h2 c) = [v] \<and> vid_count (objs h2 c) = 1 \<and>
             (case add_child h2 c v False of
                Inl e \<Rightarrow> False
              | Inr h3 \<Rightarrow> child_list (objs h3 c) = [v, v] \<and> vid_count (objs h3 c) = 2)))"
  by (simp add: Channel_init_def container_init_def Video_init_def alloc_def heap0_def blank_def
        add_child_def GenericRemoteContainer_add_child_def
        GenericRemoteContainer_sort_children_def GenericRemoteContainer_sort_children_loop_eq
        list_sort_def cmp_to_key_lt_def GenericRemoteContainer_do_sort_def Let_def upd_def)

text \<open>
  C3 says that \<open>do_sort\<close> of a channel or playlist returns -1, 0 or 1 for every pair of
  videos, so that sorting never fails. Two videos with the same upload time, of which one
  has no receive time, reach the end of the function: the result is \<open>None\<close>, the sort
  raises TypeError, and so does the construction of the next video in that channel.
  \<open>Folder.do_sort\<close> returns 0 for the same pair.
\<close>

theorem do_sort_equal_upload_times_no_result:
  "(case Channel_init heap0 1 ''c'' None of
      Inl e \<Rightarrow> False
    | Inr (c, h1) \<Rightarrow>
        (case Video_init h1 2 ''a'' (Some c) False of
           Inl e \<Rightarrow> False
         | Inr (a, h2) \<Rightarrow>
             (case Video_init h2 3 ''b'' (Some c) False of
                Inl e \<Rightarrow> False
              | Inr (b, h3) \<Rightarrow>
                  (let h4 = upd (upd h3 a (\<lambda>m. set_upload_time m 100))
                                b (\<lambda>m. set_upload_time m 100)
                   in child_list (objs h4 c) = [a, b] \<and>
                      GenericRemoteContainer_do_sort (objs h4 c) (objs h4 a) (objs h4 b) = None \<and>
                      GenericRemoteContainer_do_sort (objs h4 c) (objs h4 b) (objs h4 a) = None \<and>
                      GenericRemoteContainer_sort_children h4 c = Inl TypeError \<and>
                      Video_init h4 4 ''n'' (Some c) False = Inl TypeError \<and>
                      Folder_do_sort (objs h4 c) (objs h4 a) (objs h4 b) = Some 0))))"
  by (simp add: Channel_init_def container_init_def Video_init_def alloc_def heap0_def blank_def
        add_child_def GenericRemoteContainer_add_child_def set_upload_time_def
        GenericRemoteContainer_sort_children_def GenericRemoteContainer_sort_children_loop_eq
        list_sort_def cmp_to_key_lt_def GenericRemoteContainer_do_sort_def Folder_do_sort_def
        Let_def upd_def)






subsection \<open>Download destinations and directories\<close>

text \<open>
  C5: when the master dbid of \<open>n\<close> is its own dbid, \<open>get_actual_dir\<close> is
  \<open>get_default_dir\<close> of \<open>n\<close>; when it differs and the registry maps it to the container
  \<open>m\<close>, \<open>get_actual_dir\<close> is \<open>get_default_dir\<close> of \<open>m\<close>, with the same base directory and
  the same name override, whatever the master dbid of \<open>m\<close> itself is: one step, never a
  chain. (Both sides are \<open>None\<close> together when the walk up the parents does not end.)
\<close>

theorem get_actual_dir_one_level:
  "(master_dbid (objs h n) = dbid (objs h n) \<longrightarrow>
      get_actual_dir os h app n new_name = map_option Inr (get_default_dir os h app n new_name)) \<and>
   (master_dbid (objs h n) \<noteq> dbid (objs h n) \<and>
    media_reg_dict app (master_dbid (objs h n)) = Some m \<and> cls (objs h m) \<noteq> Video \<longrightarrow>
      get_actual_dir os h app n new_name = map_option Inr (get_default_dir os h app m new_name))"
  by (simp add: get_actual_dir_def)

lemma default_dirs:
  "get_default_dir posix alias_chain app0 1 None = Some ''/dl/B''"
  "get_default_dir posix alias_chain app0 2 None = Some ''/dl/C''"
  "get_default_dir posix alias_chain app0 3 None = Some ''/dl/C/D''"
  "get_default_dir posix alias_chain app0 3 (Some ''X'') = Some ''/dl/C/X''"
  by (simp_all add: get_default_dir_def parent_names.simps alias_chain_def heap0_def blank_def
        app0_def posix_def)

theorem get_actual_dir_one_level_witness:
  "get_actual_dir posix alias_chain app0 0 None = Some (Inr ''/dl/B'') \<and>
   get_default_dir posix alias_chain app0 1 None = Some ''/dl/B'' \<and>
   get_default_dir posix alias_chain app0 2 None = Some ''/dl/C'' \<and>
   get_actual_dir posix alias_chain app0 3 None = Some (Inr ''/dl/C/D'') \<and>
   get_actual_dir posix alias_chain app0 1 None = Some (Inr ''/dl/C'')"
proof -
  have a: "master_dbid (objs alias_chain 0) \<noteq> dbid (objs alias_chain 0) \<and>
        media_reg_dict app0 (master_dbid (objs alias_chain 0)) = Some 1 \<and>
        cls (objs alias_chain 1) \<noteq> Video"
    by (simp add: alias_chain_def heap0_def blank_def app0_def)
  have a1: "master_dbid (objs alias_chain 1) \<noteq> dbid (objs alias_chain 1) \<and>
        media_reg_dict app0 (master_dbid (objs alias_chain 1)) = Some 2 \<and>
        cls (objs alias_chain 2) \<noteq> Video"
    by (simp add: alias_chain_def heap0_def blank_def app0_def)
  have b: "master_dbid (objs alias_chain 3) = dbid (objs alias_chain 3)"
    by (simp add: alias_chain_def heap0_def blank_def)
  from get_actual_dir_one_level [of alias_chain 0 posix app0 None 1] a
  have "get_actual_dir posix alias_chain app0 0 None =
          map_option Inr (get_default_dir posix alias_chain app0 1 None)"
    by blast
  moreover from get_actual_dir_one_level [of alias_chain 1 posix app0 None 2] a1
  have "get_actual_dir posix alias_chain app0 1 None =
          map_option Inr (get_default_dir posix alias_chain app0 2 None)"
    by blast
  moreover from get_actual_dir_one_level [of alias_chain 3 posix app0 None 0] b
  have "get_actual_dir posix alias_chain app0 3 None =
          map_option Inr (get_default_dir posix alias_chain app0 3 None)"
    by blast
  ultimately show ?thesis
    using default_dirs by simp
qed

text \<open>
  C6 says that \<open>set_master_dbid\<close> never raises on a registry miss. For the old
  destination that is so (folder E, whose destination 99 is not registered, goes back to
  its own dbid without an exception), and a registered new destination gets the node in
  its slave list. A new destination that the registry does not hold raises KeyError: the
  second lookup has no guard.
\<close>

theorem set_master_dbid_unregistered_destination:
  "set_master_dbid alias_chain app0 2 99 = Inl KeyError \<and>
   (case set_master_dbid alias_chain app0 4 5 of
      Inl e \<Rightarrow> False
    | Inr h' \<Rightarrow> master_dbid (objs h' 4) = 5) \<and>
   (case set_master_dbid alias_chain app0 0 3 of
      Inl e \<Rightarrow> False
    | Inr h' \<Rightarrow> master_dbid (objs h' 0) = 3 \<and> slave_dbid_list (objs h' 1) = [] \<and>
                slave_dbid_list (objs h' 2) = [2, 1])"
  by (simp add: set_master_dbid_def alias_chain_def heap0_def blank_def app0_def upd_def
        Let_def add_slave_dbid_def del_slave_dbid_def)

text \<open>
  C10, as stated: every call of \<open>get_relative_actual_dir\<close> raises the arity error
  (TypeError). Folder E is aliased to the dbid 99, which is not in the registry: the
  lookup raises KeyError before \<open>get_relative_default_dir\<close> is called.
\<close>

theorem get_relative_actual_dir_dangling_counterexample:
  "get_relative_actual_dir posix alias_chain app0 4 None = Some (Inl KeyError) \<and>
   get_relative_actual_dir posix alias_chain app0 4 None \<noteq> Some (Inl TypeError)"
  by (simp add: get_relative_actual_dir_def alias_chain_def heap0_def blank_def app0_def)

text \<open>
  C10, amended: \<open>get_relative_actual_dir\<close> never returns a path. On a container that is
  not aliased, and on one whose master dbid the registry maps to a container, the call of
  \<open>get_relative_default_dir\<close> with two positional arguments raises TypeError; on a
  container whose master dbid the registry does not hold, the lookup raises KeyError.
\<close>

theorem get_relative_actual_dir_never_returns:
  "get_relative_actual_dir os h app self new_name \<noteq> Some (Inr p) \<and>
   (cls (objs h self) \<noteq> Video \<and> master_dbid (objs h self) = dbid (objs h self) \<longrightarrow>
      get_relative_actual_dir os h app self new_name = Some (Inl TypeError)) \<and>
   (master_dbid (objs h self) \<noteq> dbid (objs h self) \<and>
    media_reg_dict app (master_dbid (objs h self)) = Some m \<and> cls (objs h m) \<noteq> Video \<longrightarrow>
      get_relative_actual_dir os h app self new_name = Some (Inl TypeError)) \<and>
   (master_dbid (objs h self) \<noteq> dbid (objs h self) \<and>
    media_reg_dict app (master_dbid (objs h self)) = None \<longrightarrow>
      get_relative_actual_dir os h app self new_name = Some (Inl KeyError))"
  by (auto simp: get_relative_actual_dir_def call_get_relative_default_dir_def
        split: option.splits)

theorem get_relative_actual_dir_never_returns_witness:
  "get_relative_actual_dir posix alias_chain app0 0 None = Some (Inl TypeError) \<and>
   get_relative_actual_dir posix alias_chain app0 2 None = Some (Inl TypeError) \<and>
   get_relative_actual_dir posix alias_chain app0 4 None = Some (Inl KeyError) \<and>
   get_relative_default_dir posix alias_chain 3 None = Some (Inr ''C/D'')"
proof -
  have a: "master_dbid (objs alias_chain 0) \<noteq> dbid (objs alias_chain 0) \<and>
        media_reg_dict app0 (master_dbid (objs alias_chain 0)) = Some 1 \<and>
        cls (objs alias_chain 1) \<noteq> Video"
    by (simp add: alias_chain_def heap0_def blank_def app0_def)
  have b: "cls (objs alias_chain 2) \<noteq> Video \<and>
           master_dbid (objs alias_chain 2) = dbid (objs alias_chain 2)"
    by (simp add: alias_chain_def heap0_def blank_def)
  have c: "master_dbid (objs alias_chain 4) \<noteq> dbid (objs alias_chain 4) \<and>
        media_reg_dict app0 (master_dbid (objs alias_chain 4)) = None"
    by (simp add: alias_chain_def heap0_def blank_def app0_def)
  have d: "get_relative_default_dir posix alias_chain 3 None = Some (Inr ''C/D'')"
    by (simp add: get_relative_default_dir_def parent_names.simps alias_chain_def heap0_def
          blank_def posix_def)
  from get_relative_actual_dir_never_returns [of posix alias_chain app0 0 None _ 1] a
    get_relative_actual_dir_never_returns [of posix alias_chain app0 2 None] b
    get_relative_actual_dir_never_returns [of posix alias_chain app0 4 None] c d
  show ?thesis by blast
qed

subsection \<open>Matching by name\<close>





subsection \<open>Flat export\<close>

lemma flat_export_only_adds_docs:
  "prepare_flat_export t db iv ic ip k = Some d \<Longrightarrow> db k = Some d \<or> top_level_doc k d"
  "snd (flat_remote_children cs cd db iv ic ip) k = Some d \<Longrightarrow> db k = Some d \<or> top_level_doc k d"
  "flat_folder_children cs db iv ic ip k = Some d \<Longrightarrow> db k = Some d \<or> top_level_doc k d"
proof (induction t db iv ic ip and cs cd db iv ic ip and cs db iv ic ip
       arbitrary: d and d and d
       rule: prepare_flat_export_flat_remote_children_flat_folder_children.induct)
  case (1 self kids db iv ic ip)
  show ?case
  proof (cases "cls self = Video \<or> (cls self = Channel \<and> \<not> ic) \<or> (cls self = Playlist \<and> \<not> ip) \<or>
                (cls self = Folder \<and> fixed_flag self)")
    case True
    with "1.prems" show ?thesis by auto
  next
    case skip: False
    show ?thesis
    proof (cases "cls self = Channel \<or> cls self = Playlist")
      case True
      obtain cd1 db1 where r: "flat_remote_children kids Map.empty db iv ic ip = (cd1, db1)"
        by (cases "flat_remote_children kids Map.empty db iv ic ip")
      show ?thesis
      proof (cases "k = dbid self")
        case True
        with "1.prems" skip \<open>cls self = Channel \<or> cls self = Playlist\<close> r show ?thesis
          by (auto simp: top_level_doc_def)
      next
        case False
        with "1.prems" skip \<open>cls self = Channel \<or> cls self = Playlist\<close> r
        have "db1 k = Some d" by auto
        with "1.IH"(1) [of d] skip True r show ?thesis by auto
      qed
    next
      case False
      with "1.prems" skip have "flat_folder_children kids db iv ic ip k = Some d"
        by auto
      with "1.IH"(2) [of d] skip False show ?thesis by auto
    qed
  qed
next
  case (2 cd db iv ic ip)
  then show ?case by simp
next
  case (3 c rest cd db iv ic ip)
  show ?case
  proof (cases "cls (obj c) = Video")
    case True
    show ?thesis
    proof (cases "iv \<and> source (obj c) \<noteq> None")
      case inc: True
      with True "3.prems" have
        "snd (flat_remote_children rest
               (cd(dbid (obj c) \<mapsto> Doc ''video'' (dbid (obj c)) (name (obj c)) None
                     (source (obj c)) Map.empty)) db iv ic ip) k = Some d"
        by simp
      from "3.IH"(1) [OF True inc this] show ?thesis .
    next
      case exc: False
      with True "3.prems" have "snd (flat_remote_children rest cd db iv ic ip) k = Some d"
        by auto
      from "3.IH"(2) [OF True exc this] show ?thesis .
    qed
  next
    case False
    with "3.prems" have
      "snd (flat_remote_children rest cd (prepare_flat_export c db iv ic ip) iv ic ip) k = Some d"
      by simp
    from "3.IH"(4) [OF False this] "3.IH"(3) [OF False] show ?thesis by auto
  qed
next
  case (4 db iv ic ip)
  then show ?case by simp
next
  case (5 c rest db iv ic ip)
  show ?case
  proof (cases "cls (obj c) = Video")
    case True
    with "5.prems" "5.IH"(3) show ?thesis by auto
  next
    case False
    with "5.prems" have
      "flat_folder_children rest (prepare_flat_export c db iv ic ip) iv ic ip k = Some d"
      by simp
    from "5.IH"(2) [OF False this] "5.IH"(1) [OF False] show ?thesis by auto
  qed
qed

lemma flat_export_keeps_docs:
  "\<exists>d. db k = Some d \<and> top_level_doc k d \<Longrightarrow>
     \<exists>d. prepare_flat_export t db iv ic ip k = Some d \<and> top_level_doc k d"
  "\<exists>d. db k = Some d \<and> top_level_doc k d \<Longrightarrow>
     \<exists>d. snd (flat_remote_children cs cd db iv ic ip) k = Some d \<and> top_level_doc k d"
  "\<exists>d. db k = Some d \<and> top_level_doc k d \<Longrightarrow>
     \<exists>d. flat_folder_children cs db iv ic ip k = Some d \<and> top_level_doc k d"
proof (induction t db iv ic ip and cs cd db iv ic ip and cs db iv ic ip
       rule: prepare_flat_export_flat_remote_children_flat_folder_children.induct)
  case (1 self kids db iv ic ip)
  show ?case
  proof (cases "cls self = Video \<or> (cls self = Channel \<and> \<not> ic) \<or> (cls self = Playlist \<and> \<not> ip) \<or>
                (cls self = Folder \<and> fixed_flag self)")
    case True
    with "1.prems" show ?thesis by auto
  next
    case skip: False
    show ?thesis
    proof (cases "cls self = Channel \<or> cls self = Playlist")
      case True
      obtain cd1 db1 where r: "flat_remote_children kids Map.empty db iv ic ip = (cd1, db1)"
        by (cases "flat_remote_children kids Map.empty db iv ic ip")
      from "1.IH"(1) [OF _ _ _ _ True "1.prems"] skip r
      have k1: "\<exists>d. db1 k = Some d \<and> top_level_doc k d" by auto
      show ?thesis
      proof (cases "k = dbid self")
        case True
        with skip \<open>cls self = Channel \<or> cls self = Playlist\<close> r show ?thesis
          by (auto simp: top_level_doc_def)
      next
        case False
        with k1 skip \<open>cls self = Channel \<or> cls self = Playlist\<close> r show ?thesis
          by auto
      qed
    next
      case False
      from "1.IH"(2) [OF _ _ _ _ False "1.prems"] skip False show ?thesis by auto
    qed
  qed
next
  case (2 cd db iv ic ip)
  then show ?case by simp
next
  case (3 c rest cd db iv ic ip)
  show ?case
  proof (cases "cls (obj c) = Video")
    case True
    show ?thesis
    proof (cases "iv \<and> source (obj c) \<noteq> None")
      case inc: True
      have eq: "flat_remote_children (c # rest) cd db iv ic ip =
                flat_remote_children rest
                  (cd(dbid (obj c) \<mapsto> Doc ''video'' (dbid (obj c)) (name (obj c)) None
                        (source (obj c)) Map.empty)) db iv ic ip"
        using True inc by simp
      show ?thesis
        unfolding eq by (rule "3.IH"(1) [OF True inc "3.prems"])
    next
      case exc: False
      from "3.IH"(2) [OF True exc "3.prems"] True exc show ?thesis by auto
    qed
  next
    case False
    from "3.IH"(4) [OF False "3.IH"(3) [OF False "3.prems"]] False show ?thesis by simp
  qed
next
  case (4 db iv ic ip)
  then show ?case by simp
next
  case (5 c rest db iv ic ip)
  show ?case
  proof (cases "cls (obj c) = Video")
    case True
    from "5.IH"(3) [OF _ "5.prems"] True show ?thesis by simp
  next
    case False
    from "5.IH"(2) [OF False "5.IH"(1) [OF False "5.prems"]] False show ?thesis by simp
  qed
qed

lemma flat_remote_children_keeps_videos:
  "\<exists>d. cd k = Some d \<and> video_doc k d \<Longrightarrow>
   \<exists>d. fst (flat_remote_children cs cd db iv ic ip) k = Some d \<and> video_doc k d"
proof (induction cs arbitrary: cd db)
  case Nil
  then show ?case by simp
next
  case (Cons c rest)
  show ?case
  proof (cases "cls (obj c) = Video \<and> iv \<and> source (obj c) \<noteq> None")
    case True
    let ?cd = "cd(dbid (obj c) \<mapsto> Doc ''video'' (dbid (obj c)) (name (obj c)) None
                     (source (obj c)) Map.empty)"
    have eq: "flat_remote_children (c # rest) cd db iv ic ip =
              flat_remote_children rest ?cd db iv ic ip"
      using True by simp
    have "\<exists>d. ?cd k = Some d \<and> video_doc k d"
      using Cons.prems by (cases "k = dbid (obj c)") (simp_all add: video_doc_def)
    then show ?thesis
      unfolding eq by (rule Cons.IH)
  next
    case False
    then have "\<exists>db'. flat_remote_children (c # rest) cd db iv ic ip =
                     flat_remote_children rest cd db' iv ic ip"
      by (cases "cls (obj c) = Video") auto
    then obtain db' where eq: "flat_remote_children (c # rest) cd db iv ic ip =
                     flat_remote_children rest cd db' iv ic ip" by blast
    show ?thesis
      unfolding eq using Cons.prems by (rule Cons.IH)
  qed
qed

lemma flat_remote_children_has_videos:
  assumes "v \<in> set cs" and "cls (obj v) = Video" and "iv" and "source (obj v) \<noteq> None"
  shows "\<exists>d. fst (flat_remote_children cs cd db iv ic ip) (dbid (obj v)) = Some d \<and>
             video_doc (dbid (obj v)) d"
  using assms(1)
proof (induction cs arbitrary: cd db)
  case Nil
  then show ?case by simp
next
  case (Cons c rest)
  show ?case
  proof (cases "c = v")
    case True
    let ?cd = "cd(dbid (obj v) \<mapsto> Doc ''video'' (dbid (obj v)) (name (obj v)) None
                     (source (obj v)) Map.empty)"
    have eq: "flat_remote_children (c # rest) cd db iv ic ip =
              flat_remote_children rest ?cd db iv ic ip"
      using True assms(2-4) by simp
    have "\<exists>d. ?cd (dbid (obj v)) = Some d \<and> video_doc (dbid (obj v)) d"
      by (simp add: video_doc_def)
    then show ?thesis
      unfolding eq by (rule flat_remote_children_keeps_videos)
  next
    case False
    with Cons.prems have v: "v \<in> set rest" by simp
    have "\<exists>cd' db'. flat_remote_children (c # rest) cd db iv ic ip =
                     flat_remote_children rest cd' db' iv ic ip"
      by (cases "cls (obj c) = Video"; cases "iv \<and> source (obj c) \<noteq> None") auto
    then obtain cd' db' where eq: "flat_remote_children (c # rest) cd db iv ic ip =
                     flat_remote_children rest cd' db' iv ic ip" by blast
    show ?thesis
      unfolding eq using v by (rule Cons.IH)
  qed
qed

lemma prepare_flat_export_remote:
  assumes "(cls self = Channel \<and> ic) \<or> (cls self = Playlist \<and> ip)"
  shows "\<exists>d. prepare_flat_export (Tree self kids) db iv ic ip (dbid self) = Some d \<and>
             doc_dbid d = dbid self \<and> doc_type d = get_type self \<and>
             doc_name d = name self \<and> doc_nickname d = Some (nickname self) \<and>
             doc_source d = source self \<and>
             doc_db_dict d = fst (flat_remote_children kids Map.empty db iv ic ip)"
proof -
  obtain cd1 db1 where r: "flat_remote_children kids Map.empty db iv ic ip = (cd1, db1)"
    by (cases "flat_remote_children kids Map.empty db iv ic ip")
  with assms show ?thesis
    by (auto simp: get_type_def)
qed

lemma flat_folder_children_reaches:
  assumes "c \<in> set cs" and "cls (obj c) \<noteq> Video"
    and "\<And>db'. \<exists>d. prepare_flat_export c db' iv ic ip k = Some d \<and> top_level_doc k d"
  shows "\<exists>d. flat_folder_children cs db iv ic ip k = Some d \<and> top_level_doc k d"
  using assms(1)
proof (induction cs arbitrary: db)
  case Nil
  then show ?case by simp
next
  case (Cons x rest)
  show ?case
  proof (cases "x = c")
    case True
    have eq: "flat_folder_children (x # rest) db iv ic ip =
              flat_folder_children rest (prepare_flat_export c db iv ic ip) iv ic ip"
      using True assms(2) by simp
    show ?thesis
      unfolding eq by (rule flat_export_keeps_docs(3)) (rule assms(3))
  next
    case False
    with Cons.prems have c: "c \<in> set rest" by simp
    have "\<exists>db'. flat_folder_children (x # rest) db iv ic ip =
                flat_folder_children rest db' iv ic ip"
      by (cases "cls (obj x) = Video") auto
    then obtain db' where eq: "flat_folder_children (x # rest) db iv ic ip =
                flat_folder_children rest db' iv ic ip" by blast
    show ?thesis
      unfolding eq using c by (rule Cons.IH)
  qed
qed

lemma flat_descendants_exported:
  "c \<in> set (flat_descendants t) \<Longrightarrow>
   (cls (obj c) = Channel \<and> ic) \<or> (cls (obj c) = Playlist \<and> ip) \<Longrightarrow>
   \<exists>d. prepare_flat_export t db iv ic ip (dbid (obj c)) = Some d \<and>
       top_level_doc (dbid (obj c)) d"
proof (induction t arbitrary: db)
  case (Tree self kids)
  from Tree.prems(1) have f: "cls self = Folder" "\<not> fixed_flag self"
    by (auto split: if_splits)
  from Tree.prems(1) f obtain x where x: "x \<in> set kids"
    and cx: "c = x \<or> c \<in> set (flat_descendants x)"
    by auto
  have eq: "prepare_flat_export (Tree self kids) db iv ic ip =
            flat_folder_children kids db iv ic ip"
    using f by simp
  have xv: "cls (obj x) \<noteq> Video"
  proof
    assume v: "cls (obj x) = Video"
    from cx show False
    proof
      assume "c = x" with v Tree.prems(2) show False by simp
    next
      assume "c \<in> set (flat_descendants x)"
      with v show False by (cases x) simp
    qed
  qed
  have reach: "\<exists>d. prepare_flat_export x db' iv ic ip (dbid (obj c)) = Some d \<and>
                  top_level_doc (dbid (obj c)) d" for db'
    using cx
  proof
    assume "c = x"
    with Tree.prems(2) prepare_flat_export_remote [of "obj x" ic ip "children x" db' iv]
    show ?thesis
      by (cases x) (auto simp: top_level_doc_def get_type_def)
  next
    assume "c \<in> set (flat_descendants x)"
    from Tree.IH [OF x this Tree.prems(2)] show ?thesis .
  qed
  show ?case
    unfolding eq by (rule flat_folder_children_reaches [OF x xv reach])
qed

lemma flat_folder_children_skips_videos:
  "flat_folder_children cs db iv ic ip =
   flat_folder_children (filter (\<lambda>c. cls (obj c) \<noteq> Video) cs) db iv ic ip"
  by (induction cs arbitrary: db) simp_all

lemma flat_export_other_keys:
  "k \<notin> set (container_ids t) \<Longrightarrow> prepare_flat_export t db iv ic ip k = db k"
  "k \<notin> set (concat (map container_ids cs)) \<Longrightarrow>
     snd (flat_remote_children cs cd db iv ic ip) k = db k"
  "k \<notin> set (concat (map container_ids cs)) \<Longrightarrow> flat_folder_children cs db iv ic ip k = db k"
proof (induction t db iv ic ip and cs cd db iv ic ip and cs db iv ic ip
       rule: prepare_flat_export_flat_remote_children_flat_folder_children.induct)
  case (1 self kids db iv ic ip)
  show ?case
  proof (cases "cls self = Video \<or> (cls self = Channel \<and> \<not> ic) \<or> (cls self = Playlist \<and> \<not> ip) \<or>
                (cls self = Folder \<and> fixed_flag self)")
    case True
    then show ?thesis by auto
  next
    case skip: False
    then have nv: "cls self \<noteq> Video" by simp
    with "1.prems" have k: "k \<noteq> dbid self" "k \<notin> set (concat (map container_ids kids))"
      by simp_all
    show ?thesis
    proof (cases "cls self = Channel \<or> cls self = Playlist")
      case True
      obtain cd1 db1 where r: "flat_remote_children kids Map.empty db iv ic ip = (cd1, db1)"
        by (cases "flat_remote_children kids Map.empty db iv ic ip")
      from "1.IH"(1) [OF _ _ _ _ True k(2)] skip r have "db1 k = db k" by auto
      with skip True r k(1) show ?thesis by auto
    next
      case False
      from "1.IH"(2) [OF _ _ _ _ False k(2)] skip False show ?thesis by auto
    qed
  qed
next
  case (2 cd db iv ic ip)
  then show ?case by simp
next
  case (3 c rest cd db iv ic ip)
  from "3.prems" have kc: "k \<notin> set (container_ids c)"
    and kr: "k \<notin> set (concat (map container_ids rest))" by simp_all
  show ?case
  proof (cases "cls (obj c) = Video")
    case True
    show ?thesis
    proof (cases "iv \<and> source (obj c) \<noteq> None")
      case inc: True
      have eq: "flat_remote_children (c # rest) cd db iv ic ip =
                flat_remote_children rest
                  (cd(dbid (obj c) \<mapsto> Doc ''video'' (dbid (obj c)) (name (obj c)) None
                        (source (obj c)) Map.empty)) db iv ic ip"
        using True inc by simp
      show ?thesis
        unfolding eq by (rule "3.IH"(1) [OF True inc kr])
    next
      case exc: False
      from "3.IH"(2) [OF True exc kr] True exc show ?thesis by auto
    qed
  next
    case False
    from "3.IH"(4) [OF False kr] "3.IH"(3) [OF False kc] False show ?thesis by simp
  qed
next
  case (4 db iv ic ip)
  then show ?case by simp
next
  case (5 c rest db iv ic ip)
  from "5.prems" have kc: "k \<notin> set (container_ids c)"
    and kr: "k \<notin> set (concat (map container_ids rest))" by simp_all
  show ?case
  proof (cases "cls (obj c) = Video")
    case True
    from "5.IH"(3) [OF _ kr] True show ?thesis by simp
  next
    case False
    from "5.IH"(2) [OF False kr] "5.IH"(1) [OF False kc] False show ?thesis by simp
  qed
qed

lemma flat_remote_children_fst:
  "fst (flat_remote_children cs cd db iv ic ip) = fst (flat_remote_children cs cd db' iv ic ip)"
proof (induction cs arbitrary: cd db db')
  case Nil
  then show ?case by simp
next
  case (Cons c rest)
  show ?case
  proof (cases "cls (obj c) = Video")
    case True
    with Cons.IH show ?thesis by (cases "iv \<and> source (obj c) \<noteq> None") auto
  next
    case False
    with Cons.IH show ?thesis by simp
  qed
qed

lemma prepare_flat_export_remote_doc:
  assumes "(cls (obj c) = Channel \<and> ic) \<or> (cls (obj c) = Playlist \<and> ip)"
  shows "prepare_flat_export c db iv ic ip (dbid (obj c)) = Some (remote_doc iv ic ip c)"
proof -
  obtain self kids where c: "c = Tree self kids" by (cases c)
  obtain cd1 db1 where r: "flat_remote_children kids Map.empty db iv ic ip = (cd1, db1)"
    by (cases "flat_remote_children kids Map.empty db iv ic ip")
  have "cd1 = fst (flat_remote_children kids Map.empty Map.empty iv ic ip)"
    using flat_remote_children_fst [of kids Map.empty db iv ic ip Map.empty] r by simp
  with assms c r show ?thesis
    by (auto simp: remote_doc_def get_type_def)
qed

lemma flat_descendants_ids:
  "c \<in> set (flat_descendants t) \<Longrightarrow> cls (obj c) \<noteq> Video \<Longrightarrow>
   dbid (obj c) \<in> set (container_ids t)"
proof (induction t)
  case (Tree self kids)
  from Tree.prems(1) have f: "cls self = Folder"
    by (auto split: if_splits)
  from Tree.prems(1) f obtain x where x: "x \<in> set kids"
    and cx: "c = x \<or> c \<in> set (flat_descendants x)"
    by (auto split: if_splits)
  from cx have "dbid (obj c) \<in> set (container_ids x)"
  proof
    assume "c = x"
    with Tree.prems(2) show ?thesis by (cases x) simp
  next
    assume "c \<in> set (flat_descendants x)"
    from Tree.IH [OF x this Tree.prems(2)] show ?thesis .
  qed
  with x f show ?case by auto
qed

lemma flat_folder_children_distinct:
  assumes "distinct (concat (map container_ids cs))" and "x \<in> set cs"
    and "k \<in> set (container_ids x)"
    and "\<And>db'. prepare_flat_export x db' iv ic ip k = Some D"
  shows "flat_folder_children cs db iv ic ip k = Some D"
  using assms(1,2)
proof (induction cs arbitrary: db)
  case Nil
  then show ?case by simp
next
  case (Cons y rest)
  from assms(3) have xv: "cls (obj x) \<noteq> Video" by (cases x) (auto split: if_splits)
  show ?case
  proof (cases "y = x")
    case True
    from Cons.prems(1) True assms(3) have "k \<notin> set (concat (map container_ids rest))"
      by auto
    from flat_export_other_keys(3) [OF this] True xv assms(4) show ?thesis by simp
  next
    case False
    with Cons.prems have x: "x \<in> set rest" and d: "distinct (concat (map container_ids rest))"
      by simp_all
    have "\<exists>db'. flat_folder_children (y # rest) db iv ic ip =
                flat_folder_children rest db' iv ic ip"
      by (cases "cls (obj y) = Video") auto
    then obtain db' where eq: "flat_folder_children (y # rest) db iv ic ip =
                flat_folder_children rest db' iv ic ip" by blast
    show ?thesis
      unfolding eq using d x by (rule Cons.IH)
  qed
qed

lemma flat_descendants_remote_doc:
  "distinct (container_ids t) \<Longrightarrow> c \<in> set (flat_descendants t) \<Longrightarrow>
   (cls (obj c) = Channel \<and> ic) \<or> (cls (obj c) = Playlist \<and> ip) \<Longrightarrow>
   prepare_flat_export t db iv ic ip (dbid (obj c)) = Some (remote_doc iv ic ip c)"
proof (induction t arbitrary: db)
  case (Tree self kids)
  from Tree.prems(2) have f: "cls self = Folder" "\<not> fixed_flag self"
    by (auto split: if_splits)
  from Tree.prems(2) f obtain x where x: "x \<in> set kids"
    and cx: "c = x \<or> c \<in> set (flat_descendants x)"
    by auto
  from Tree.prems(3) have cv: "cls (obj c) \<noteq> Video" by auto
  from Tree.prems(1) f have d: "distinct (concat (map container_ids kids))"
    by simp
  from d x have dx: "distinct (container_ids x)"
    by (induction kids) auto
  have kx: "dbid (obj c) \<in> set (container_ids x)"
    using cx
  proof
    assume "c = x" with cv show ?thesis by (cases x) simp
  next
    assume "c \<in> set (flat_descendants x)"
    then show ?thesis using cv by (rule flat_descendants_ids)
  qed
  have reach: "prepare_flat_export x db' iv ic ip (dbid (obj c)) = Some (remote_doc iv ic ip c)"
    for db'
    using cx
  proof
    assume "c = x"
    with prepare_flat_export_remote_doc [OF Tree.prems(3)] show ?thesis by simp
  next
    assume "c \<in> set (flat_descendants x)"
    from Tree.IH [OF x dx this Tree.prems(3)] show ?thesis .
  qed
  have eq: "prepare_flat_export (Tree self kids) db iv ic ip =
            flat_folder_children kids db iv ic ip"
    using f by simp
  show ?case
    unfolding eq by (rule flat_folder_children_distinct [OF d x kx reach])
qed

text \<open>
  C7, as stated: in flat mode a video whose direct parent is a folder that is not fixed
  appears in the top-level collection (there is no enclosing channel or playlist) when
  videos are included and its source is known. The export of such a folder with such a
  video, all flags set, is the empty collection.
\<close>

theorem flat_export_folder_video_counterexample:
  "source (obj (hd (children folder_with_video))) = Some ''http://v'' \<and>
   dbid (obj (hd (children folder_with_video))) = 2 \<and>
   prepare_flat_export folder_with_video Map.empty True True True 2 = None \<and>
   prepare_flat_export folder_with_video Map.empty True True True = Map.empty"
  by (simp add: folder_with_video_def blank_def)

text \<open>
  C7, amended: in flat mode, for every tree and every setting of the flags, a folder that
  is not fixed adds nothing to the collection but dictionaries of channels and playlists,
  each under its own dbid. Every channel or playlist reached from it through folders that
  are not fixed, and whose kind is included, is in the collection under its own dbid;
  the dictionary written for it carries its dbid and type and holds, under its own dbid,
  each of its direct videos with a known source when videos are included; and when the
  dbids of the containers of the tree are distinct, that dictionary is the collection's
  entry. The videos that are direct children of the folder are not exported: the result
  is the same without them.
\<close>

theorem prepare_flat_export_folder:
  assumes "cls self = Folder" and "\<not> fixed_flag self"
  shows "(\<forall>k d. prepare_flat_export (Tree self kids) db iv ic ip k = Some d \<longrightarrow>
            db k = Some d \<or> top_level_doc k d) \<and>
         (\<forall>c\<in>set (flat_descendants (Tree self kids)).
            (cls (obj c) = Channel \<and> ic) \<or> (cls (obj c) = Playlist \<and> ip) \<longrightarrow>
            (\<exists>d. prepare_flat_export (Tree self kids) db iv ic ip (dbid (obj c)) = Some d \<and>
                 top_level_doc (dbid (obj c)) d) \<and>
            (\<forall>db'. prepare_flat_export c db' iv ic ip (dbid (obj c)) =
                     Some (remote_doc iv ic ip c)) \<and>
            (distinct (container_ids (Tree self kids)) \<longrightarrow>
               prepare_flat_export (Tree self kids) db iv ic ip (dbid (obj c)) =
                 Some (remote_doc iv ic ip c)) \<and>
            doc_dbid (remote_doc iv ic ip c) = dbid (obj c) \<and>
            doc_type (remote_doc iv ic ip c) = get_type (obj c) \<and>
            (\<forall>v\<in>set (children c).
               cls (obj v) = Video \<and> iv \<and> source (obj v) \<noteq> None \<longrightarrow>
               (\<exists>vd. doc_db_dict (remote_doc iv ic ip c) (dbid (obj v)) = Some vd \<and>
                     video_doc (dbid (obj v)) vd))) \<and>
         prepare_flat_export (Tree self kids) db iv ic ip =
           prepare_flat_export (Tree self (filter (\<lambda>c. cls (obj c) \<noteq> Video) kids)) db iv ic ip"
proof (intro conjI allI impI ballI)
  fix k d
  assume "prepare_flat_export (Tree self kids) db iv ic ip k = Some d"
  then show "db k = Some d \<or> top_level_doc k d"
    by (rule flat_export_only_adds_docs(1))
next
  fix c
  assume "c \<in> set (flat_descendants (Tree self kids))"
    and "(cls (obj c) = Channel \<and> ic) \<or> (cls (obj c) = Playlist \<and> ip)"
  then show "\<exists>d. prepare_flat_export (Tree self kids) db iv ic ip (dbid (obj c)) = Some d \<and>
                 top_level_doc (dbid (obj c)) d"
    by (rule flat_descendants_exported)
next
  fix c db'
  assume "(cls (obj c) = Channel \<and> ic) \<or> (cls (obj c) = Playlist \<and> ip)"
  then show "prepare_flat_export c db' iv ic ip (dbid (obj c)) = Some (remote_doc iv ic ip c)"
    by (rule prepare_flat_export_remote_doc)
next
  fix c
  assume "c \<in> set (flat_descendants (Tree self kids))"
    and "(cls (obj c) = Channel \<and> ic) \<or> (cls (obj c) = Playlist \<and> ip)"
    and "distinct (container_ids (Tree self kids))"
  then show "prepare_flat_export (Tree self kids) db iv ic ip (dbid (obj c)) =
               Some (remote_doc iv ic ip c)"
    by (intro flat_descendants_remote_doc)
next
  fix c
  show "doc_dbid (remote_doc iv ic ip c) = dbid (obj c)"
    by (simp add: remote_doc_def)
  show "doc_type (remote_doc iv ic ip c) = get_type (obj c)"
    by (simp add: remote_doc_def)
next
  fix c v
  assume "v \<in> set (children c)" and "cls (obj v) = Video \<and> iv \<and> source (obj v) \<noteq> None"
  then show "\<exists>vd. doc_db_dict (remote_doc iv ic ip c) (dbid (obj v)) = Some vd \<and>
                  video_doc (dbid (obj v)) vd"
    unfolding remote_doc_def export_doc.sel
    by (intro flat_remote_children_has_videos) simp_all
next
  show "prepare_flat_export (Tree self kids) db iv ic ip =
        prepare_flat_export (Tree self (filter (\<lambda>c. cls (obj c) \<noteq> Video) kids)) db iv ic ip"
    using assms flat_folder_children_skips_videos [of kids db iv ic ip] by simp
qed

theorem prepare_flat_export_folder_witness:
  "(\<exists>d. prepare_flat_export export_tree Map.empty True True True 5 = Some d \<and>
        top_level_doc 5 d) \<and>
   prepare_flat_export export_tree Map.empty True True True 5 =
     Some (remote_doc True True True (hd (children (hd (children export_tree))))) \<and>
   prepare_flat_export export_tree Map.empty True True True =
     [5 \<mapsto> Doc ''channel'' 5 ''C'' (Some ''C'') (Some ''http://c'')
              [6 \<mapsto> Doc ''video'' 6 ''a'' None (Some ''http://a'') Map.empty]] \<and>
   prepare_flat_export export_tree Map.empty True True True 2 = None"
proof -
  define c where "c = hd (children (hd (children export_tree)))"
  have f: "cls (obj export_tree) = Folder" "\<not> fixed_flag (obj export_tree)"
    by (simp_all add: export_tree_def blank_def)
  have c: "c \<in> set (flat_descendants (Tree (obj export_tree) (children export_tree)))"
    "cls (obj c) = Channel" "dbid (obj c) = 5"
    "distinct (container_ids (Tree (obj export_tree) (children export_tree)))"
    by (simp_all add: c_def export_tree_def blank_def)
  have t: "Tree (obj export_tree) (children export_tree) = export_tree"
    by simp
  from prepare_flat_export_folder [OF f, of "children export_tree" Map.empty True True True] c
  have "\<exists>d. prepare_flat_export (Tree (obj export_tree) (children export_tree))
               Map.empty True True True 5 = Some d \<and> top_level_doc 5 d"
    by fastforce
  then have "\<exists>d. prepare_flat_export export_tree Map.empty True True True 5 = Some d \<and>
                 top_level_doc 5 d"
    unfolding t .
  moreover
  from prepare_flat_export_folder [OF f, of "children export_tree" Map.empty True True True] c
  have "prepare_flat_export (Tree (obj export_tree) (children export_tree))
               Map.empty True True True 5 = Some (remote_doc True True True c)"
    by fastforce
  then have "prepare_flat_export export_tree Map.empty True True True 5 =
               Some (remote_doc True True True (hd (children (hd (children export_tree)))))"
    unfolding t c_def .
  moreover have r: "prepare_flat_export export_tree Map.empty True True True =
     [5 \<mapsto> Doc ''channel'' 5 ''C'' (Some ''C'') (Some ''http://c'')
              [6 \<mapsto> Doc ''video'' 6 ''a'' None (Some ''http://a'') Map.empty]]"
    by (simp add: export_tree_def blank_def)
  moreover have "prepare_flat_export export_tree Map.empty True True True 2 = None"
    by (simp add: r)
  ultimately show ?thesis by blast
qed

subsection \<open>Renaming\<close>

text \<open>
  C8, as stated: renaming any node, a video included, sets the nickname to the new name
  when the nickname was the old name. A video named and nicknamed \<open>a\<close> that is renamed
  to \<open>b\<close> keeps the nickname \<open>a\<close>: \<open>Video.set_name\<close> assigns the name only.
\<close>

theorem set_name_video_counterexample:
  "nickname (set_name (blank Video 1 ''a'' (Some 0)) ''b'') \<noteq>
     (if nickname (blank Video 1 ''a'' (Some 0)) = name (blank Video 1 ''a'' (Some 0))
      then ''b'' else nickname (blank Video 1 ''a'' (Some 0)))"
  by (simp add: set_name_def Video_set_name_def blank_def)

text \<open>
  C8, amended: renaming a channel, playlist or folder sets the nickname to the new name
  exactly when the nickname was equal to the name before, and leaves it alone otherwise;
  renaming a video never changes the nickname. The name is the new name in every case.
\<close>

theorem set_name_nickname:
  "name (set_name m nm) = nm \<and>
   nickname (set_name m nm) =
     (if cls m = Video then nickname m
      else if nickname m = name m then nm
      else nickname m)"
  by (cases "cls m")
     (simp_all add: set_name_def Video_set_name_def GenericContainer_set_name_def)

theorem set_name_nickname_witness:
  "nickname (set_name (blank Folder 1 ''a'' None) ''b'') = ''b'' \<and>
   nickname (set_name ((blank Channel 2 ''a'' None)\<lparr>nickname := ''n''\<rparr>) ''b'') = ''n'' \<and>
   nickname (set_name (blank Video 3 ''a'' (Some 0)) ''b'') = ''a''"
  using set_name_nickname [of "blank Folder 1 ''a'' None" "''b''"]
    set_name_nickname [of "(blank Channel 2 ''a'' None)\<lparr>nickname := ''n''\<rparr>" "''b''"]
    set_name_nickname [of "blank Video 3 ''a'' (Some 0)" "''b''"]
  by (simp add: blank_def)

end
